theory Spec2Isabelle
  imports Main "HOL-Library.Sublist" "HOL-Library.List_Lexorder"
begin

section \<open>Python values used by the scripts\<close>

text \<open>
  A Python \<open>str\<close> is a sequence of Unicode code points; \<open>len\<close>, slicing and \<open>in\<close>
  count code points, so a string is modelled as a list of code points (natural numbers).
  \<open>lit\<close> embeds an ASCII literal of the source. With \<open>HOL-Library.List_Lexorder\<close> the
  order on such lists is the lexicographic one, which is how Python compares strings.
\<close>

type_synonym pystr = "nat list"

definition lit :: "string \<Rightarrow> pystr" where
  "lit s = map of_char s"

text \<open>\<open>e in a\<close> on strings: \<open>e\<close> occurs in \<open>a\<close> as a contiguous block.\<close>

fun py_in :: "'a list \<Rightarrow> 'a list \<Rightarrow> bool" where
  "py_in e [] = (e = [])"
| "py_in e (c # cs) = (prefix e (c # cs) \<or> py_in e cs)"

text \<open>\<open>str(n)\<close> for a non-negative and for an arbitrary integer.\<close>

function str_nat :: "nat \<Rightarrow> pystr" where
  "str_nat n = (if n < 10 then [48 + n] else str_nat (n div 10) @ [48 + n mod 10])"
  by pat_completeness auto
termination
  by (relation "measure id") auto

definition str_int :: "int \<Rightarrow> pystr" where
  "str_int i = (if i < 0 then 45 # str_nat (nat (- i)) else str_nat (nat i))"

text \<open>The exceptions that the two scripts can raise or let through.\<close>

datatype error =
    IndexError
  | KeyError pystr
  | AssertionError
  | CalledProcessError int
  | FileNotFoundError pystr
  | FileExistsError
  | ReadError
  | UnicodeEncodeError

text \<open>
  A cell output of an executed notebook, as far as the scripts read it: the
  \<open>output_type\<close> attribute and the \<open>traceback\<close> entry (absent on outputs that
  carry none).
\<close>

record nb_output =
  output_type :: pystr
  traceback :: "pystr list option"

record cell =
  outputs :: "nb_output list option"

record notebook =
  cells :: "cell list"

section \<open>\<open>runtest.py\<close>: \<open>check_errors\<close>\<close>

text \<open>
  What \<open>check_errors\<close> prints to \<open>sys.stderr\<close>, one value per \<open>print\<close> call;
  \<open>render\<close> gives the text of the line.
\<close>

datatype line =
    Bar
  | Header pystr
  | NoMatch nat pystr pystr

definition render :: "line \<Rightarrow> pystr" where
  "render l = (case l of
      Bar \<Rightarrow> replicate 100 61
    | Header file_name \<Rightarrow> lit ''Errors detected in '' @ file_name
    | NoMatch i e a \<Rightarrow>
        lit ''No match for '' @ str_nat i @ lit ''-th expected error '' @ [39] @ e @ [39]
          @ lit '' got '' @ [39] @ a @ [39])"

definition sentinel :: pystr where
  "sentinel = lit ''-- No Error --''"

text \<open>\<open>itertools.zip_longest(xs, ys, fillvalue=f)\<close>.\<close>

fun zip_longest :: "'a list \<Rightarrow> 'a list \<Rightarrow> 'a \<Rightarrow> ('a \<times> 'a) list" where
  "zip_longest [] [] f = []"
| "zip_longest (x # xs) [] f = (x, f) # zip_longest xs [] f"
| "zip_longest [] (y # ys) f = (f, y) # zip_longest [] ys f"
| "zip_longest (x # xs) (y # ys) f = (x, y) # zip_longest xs ys f"

text \<open>
  \<open>str(x['traceback'][0][:100])\<close>: a missing entry raises \<open>KeyError\<close>, an empty
  traceback raises \<open>IndexError\<close>.
\<close>

definition signature :: "nb_output \<Rightarrow> error + pystr" where
  "signature x = (case traceback x of
      None \<Rightarrow> Inl (KeyError (lit ''traceback''))
    | Some [] \<Rightarrow> Inl IndexError
    | Some (l # _) \<Rightarrow> Inr (take 100 l))"

text \<open>\<open>list(map(lambda x: ..., actual))\<close>: the first element that raises ends the map.\<close>

fun actual_tracebacks :: "nb_output list \<Rightarrow> error + pystr list" where
  "actual_tracebacks [] = Inr []"
| "actual_tracebacks (x # xs) =
     (case signature x of
        Inl err \<Rightarrow> Inl err
      | Inr s \<Rightarrow> (case actual_tracebacks xs of Inl err \<Rightarrow> Inl err | Inr ss \<Rightarrow> Inr (s # ss)))"

text \<open>
  The \<open>for\<close> loop of \<open>check_errors\<close>; its state is \<open>return_value\<close> and what has been
  printed so far.
\<close>

fun check_loop :: "pystr \<Rightarrow> (nat \<times> pystr \<times> pystr) list \<Rightarrow> bool \<times> line list \<Rightarrow> bool \<times> line list" where
  "check_loop file_name [] st = st"
| "check_loop file_name ((i, e, a) # rest) (return_value, out) =
     (if \<not> py_in e a
      then check_loop file_name rest
             (False, out @ (if return_value then [Bar, Header file_name] else [])
                         @ [NoMatch i e (take 100 a)])
      else check_loop file_name rest (return_value, out))"

definition check_errors :: "pystr \<Rightarrow> pystr list \<Rightarrow> nb_output list \<Rightarrow> error + (bool \<times> line list)" where
  "check_errors file_name expected actual =
     (case actual_tracebacks actual of
        Inl err \<Rightarrow> Inl err
      | Inr ats \<Rightarrow>
          (case check_loop file_name (enumerate 0 (zip_longest expected ats sentinel)) (True, []) of
             (return_value, out) \<Rightarrow>
               Inr (return_value, if \<not> return_value then out @ [Bar] else out)))"

text \<open>
  The first line of the traceback of an error output, where it has one; the claims about
  \<open>check_errors\<close> are stated for outputs that have one, so that \<open>check_errors\<close>
  returns.
\<close>

definition has_first_line :: "nb_output \<Rightarrow> bool" where
  "has_first_line x = (case traceback x of Some (l # _) \<Rightarrow> True | _ \<Rightarrow> False)"

definition first_line :: "nb_output \<Rightarrow> pystr" where
  "first_line x = (case traceback x of Some (l # _) \<Rightarrow> l | _ \<Rightarrow> [])"

section \<open>\<open>runtest.py\<close>: the expectation catalog\<close>

definition ChiselException_elaborating :: pystr where
  "ChiselException_elaborating =
     lit ''chisel3.internal.ChiselException: Exception thrown when elaborating ChiselGeneratorAnnotation''"

definition Compilation_Failed :: pystr where
  "Compilation_Failed = lit ''Compilation Failed''"

definition NotImplementedError :: pystr where
  "NotImplementedError = lit ''scala.NotImplementedError''"

text \<open>The signature \<^verbatim>\<open>expected ")"\<close> of \<open>3.6_types.ipynb\<close>; 34 is the double quote.\<close>

definition expected_paren :: pystr where
  "expected_paren = lit ''expected '' @ [34, 41, 34]"

text \<open>
  The dictionary \<open>notebooks\<close>, in the order of the literal; \<open>[s] * k\<close> is
  \<open>replicate k s\<close>. Its keys are pairwise different, so the association list has the
  dictionary's lookups.
\<close>

definition notebooks :: "(pystr \<times> pystr list) list" where
  "notebooks =
    [(lit ''1_intro_to_scala.ipynb'', []),
     (lit ''2.1_first_module.ipynb'', [ChiselException_elaborating]),
     (lit ''2.2_comb_logic.ipynb'',
        [Compilation_Failed] @ [ChiselException_elaborating] @ [ChiselException_elaborating]
          @ [ChiselException_elaborating]),
     (lit ''2.3_control_flow.ipynb'',
        replicate 2 NotImplementedError @ [Compilation_Failed] @ [NotImplementedError]
          @ [Compilation_Failed]),
     (lit ''2.4_sequential_logic.ipynb'', replicate 2 ChiselException_elaborating),
     (lit ''2.5_exercise.ipynb'', replicate 3 ChiselException_elaborating @ [Compilation_Failed]),
     (lit ''2.6_chiseltest.ipynb'', []),
     (lit ''3.1_parameters.ipynb'', [lit ''java.util.NoSuchElementException'']),
     (lit ''3.2_collections.ipynb'', [ChiselException_elaborating]),
     (lit ''3.2_interlude.ipynb'', []),
     (lit ''3.3_higher-order_functions.ipynb'',
        [NotImplementedError] @ [lit ''java.lang.UnsupportedOperationException'']
          @ replicate 2 NotImplementedError @ [ChiselException_elaborating]),
     (lit ''3.4_functional_programming.ipynb'',
        [NotImplementedError] @ [Compilation_Failed] @ [NotImplementedError]
          @ [Compilation_Failed]),
     (lit ''3.5_object_oriented_programming.ipynb'', [Compilation_Failed]),
     (lit ''3.6_types.ipynb'',
        [lit ''chisel3.internal.ChiselException: Connection between sink'']
          @ [lit ''Failed to elaborate Chisel circuit''] @ [expected_paren]
          @ [lit ''scala.MatchError: ChiselExecutionFailure''] @ replicate 5 Compilation_Failed),
     (lit ''4.1_firrtl_ast.ipynb'', []),
     (lit ''4.2_firrtl_ast_traversal.ipynb'', []),
     (lit ''4.3_firrtl_common_idioms.ipynb'', []),
     (lit ''4.4_firrtl_add_ops_per_module.ipynb'', [lit ''FirrtlInternalException''])]"

section \<open>The operating system, as far as the scripts use it\<close>

text \<open>
  The process and its file system: the working directory (an absolute path), the
  directories and the files that exist (a file with its content), the directory
  \<open>tempfile.gettempdir()\<close> answers, the names that the random name generator of
  \<open>tempfile\<close> will produce next, and the argument lists of the child processes
  started so far. Paths are POSIX paths and are compared as strings (no \<open>..\<close>, no
  symbolic links).
\<close>

record world =
  cwd :: pystr
  dirs :: "pystr set"
  files :: "pystr \<rightharpoonup> pystr"
  tmpdir :: pystr
  names :: "pystr list"
  calls :: "pystr list list"

text \<open>
  What lies outside the repository: the child process \<open>python -m nbconvert\<close>, which is
  given its arguments, its working directory and the files, and either cannot be started
  or ends with an exit code and leaves files behind; and \<open>nbformat.read\<close>, which parses
  the content of a file or raises.
\<close>

record env =
  nbconvert :: "pystr list \<Rightarrow> pystr \<Rightarrow> (pystr \<rightharpoonup> pystr) \<Rightarrow> (error + int) \<times> (pystr \<rightharpoonup> pystr)"
  nbformat_read :: "pystr \<Rightarrow> error + notebook"

definition sep :: nat where
  "sep = 47"

text \<open>\<open>posixpath.split\<close> and \<open>posixpath.join\<close> (of two components).\<close>

definition os_path_split :: "pystr \<Rightarrow> pystr \<times> pystr" where
  "os_path_split p =
     (let tail = rev (takeWhile (\<lambda>c. c \<noteq> sep) (rev p));
          head = take (length p - length tail) p
      in (if head \<noteq> [] \<and> head \<noteq> replicate (length head) sep
          then rev (dropWhile (\<lambda>c. c = sep) (rev head)) else head,
          tail))"

definition os_path_join :: "pystr \<Rightarrow> pystr \<Rightarrow> pystr" where
  "os_path_join a b =
     (if b \<noteq> [] \<and> hd b = sep then b
      else if a = [] \<or> last a = sep then a @ b
      else a @ [sep] @ b)"

text \<open>A path as the process resolves it: relative paths start at the working directory.\<close>

definition abspath :: "world \<Rightarrow> pystr \<Rightarrow> pystr" where
  "abspath w p = os_path_join (cwd w) p"

definition os_chdir :: "pystr \<Rightarrow> world \<Rightarrow> error + world" where
  "os_chdir p w =
     (if abspath w p \<in> dirs w then Inr (w\<lparr>cwd := abspath w p\<rparr>) else Inl (FileNotFoundError p))"

text \<open>
  \<open>tempfile.mkstemp(suffix=..., dir=...)\<close>: the directory is resolved at the moment of
  the call; the file \<open>tmp<name><suffix>\<close> is created there, empty, under the first
  generated name that is free. A directory that does not exist raises
  \<open>FileNotFoundError\<close>, running out of names raises \<open>FileExistsError\<close>.
\<close>

definition mkstemp :: "pystr \<Rightarrow> pystr option \<Rightarrow> world \<Rightarrow> world \<times> (error + pystr)" where
  "mkstemp suf dir w =
     (let d = abspath w (case dir of None \<Rightarrow> tmpdir w | Some d' \<Rightarrow> d');
          candidate = (\<lambda>nm. os_path_join d (lit ''tmp'' @ nm @ suf))
      in if d \<notin> dirs w then (w, Inl (FileNotFoundError d))
         else (case dropWhile (\<lambda>nm. files w (candidate nm) \<noteq> None) (names w) of
                 [] \<Rightarrow> (w\<lparr>names := []\<rparr>, Inl FileExistsError)
               | nm # rest \<Rightarrow>
                   (w\<lparr>files := (files w)(candidate nm \<mapsto> []), names := rest\<rparr>,
                    Inr (candidate nm))))"

text \<open>
  \<open>os.unlink\<close> inside \<open>try: ... except OSError: pass\<close>: the file is removed; when it
  is not there the \<open>OSError\<close> is swallowed.
\<close>

definition unlink_quietly :: "pystr \<Rightarrow> world \<Rightarrow> world" where
  "unlink_quietly p w = w\<lparr>files := (files w)(abspath w p := None)\<rparr>"

text \<open>
  \<open>subprocess.check_call\<close>: the child runs in the working directory of the process and
  cannot change that of its parent; a non-zero exit code raises \<open>CalledProcessError\<close>.
\<close>

definition check_call :: "env \<Rightarrow> pystr list \<Rightarrow> world \<Rightarrow> world \<times> (error + unit)" where
  "check_call ev args w =
     (case nbconvert ev args (cwd w) (files w) of
        (r, fs) \<Rightarrow>
          (w\<lparr>files := fs, calls := calls w @ [args]\<rparr>,
           case r of
             Inl err \<Rightarrow> Inl err
           | Inr rc \<Rightarrow> if rc = 0 then Inr () else Inl (CalledProcessError rc)))"

text \<open>\<open>with open(temp_path, 'r', encoding='utf-8') as f: nb = nbformat.read(f, ...)\<close>.\<close>

definition read_notebook :: "env \<Rightarrow> pystr \<Rightarrow> world \<Rightarrow> error + notebook" where
  "read_notebook ev p w =
     (case files w (abspath w p) of
        None \<Rightarrow> Inl (FileNotFoundError p)
      | Some content \<Rightarrow> nbformat_read ev content)"

section \<open>\<open>runtest.py\<close>: \<open>_notebook_run\<close>\<close>

text \<open>The list comprehension that collects the error outputs of all cells, in order.\<close>

definition collect_errors :: "notebook \<Rightarrow> nb_output list" where
  "collect_errors nb =
     concat (map (\<lambda>c. case outputs c of
                         None \<Rightarrow> []
                       | Some os \<Rightarrow> filter (\<lambda>output. output_type output = lit ''error'') os)
                 (cells nb))"

definition nbconvert_args :: "pystr \<Rightarrow> pystr \<Rightarrow> pystr list" where
  "nbconvert_args temp_basename notebook_path =
     [lit ''python'', lit ''-m'', lit ''nbconvert'', lit ''--to'', lit ''notebook'',
      lit ''--execute'', lit ''--allow-errors'', lit ''--ExecutePreprocessor.timeout=60'',
      lit ''--output'', temp_basename, notebook_path]"

text \<open>The body of the \<open>try\<close> block.\<close>

definition try_body ::
  "env \<Rightarrow> pystr \<Rightarrow> pystr \<Rightarrow> pystr \<Rightarrow> world \<Rightarrow> world \<times> (error + notebook \<times> nb_output list)" where
  "try_body ev temp_path temp_basename notebook_path w =
     (case check_call ev (nbconvert_args temp_basename notebook_path) w of
        (w', Inl err) \<Rightarrow> (w', Inl err)
      | (w', Inr _) \<Rightarrow>
          (case read_notebook ev temp_path w' of
             Inl err \<Rightarrow> (w', Inl err)
           | Inr nb \<Rightarrow> (w', Inr (nb, collect_errors nb))))"

text \<open>
  The \<open>finally\<close> block, entered with the result of the \<open>try\<close> block: an exception of
  the final \<open>os.chdir\<close> replaces that result.
\<close>

definition finally_block ::
  "pystr \<Rightarrow> pystr \<Rightarrow> world \<times> (error + 'a) \<Rightarrow> world \<times> (error + 'a)" where
  "finally_block temp_path original_dir r =
     (case r of
        (w, res) \<Rightarrow>
          (let w' = unlink_quietly temp_path w
           in case os_chdir original_dir w' of
                Inl err \<Rightarrow> (w', Inl err)
              | Inr w'' \<Rightarrow> (w'', res)))"

definition notebook_run :: "env \<Rightarrow> pystr \<Rightarrow> world \<Rightarrow> world \<times> (error + notebook \<times> nb_output list)" where
  "notebook_run ev path w =
     (case os_path_split path of
        (dirname, basename) \<Rightarrow>
          (let original_dir = cwd w
           in case (if length dirname > 0
                    then (case os_chdir dirname w of
                            Inl err \<Rightarrow> Inl err
                          | Inr w' \<Rightarrow> Inr (w', basename))
                    else Inr (w, path)) of
                Inl err \<Rightarrow> (w, Inl err)
              | Inr (w1, notebook_path) \<Rightarrow>
                  (case mkstemp (lit ''.ipynb'') (if dirname \<noteq> [] then Some dirname else None) w1 of
                     (w2, Inl err) \<Rightarrow> (w2, Inl err)
                   | (w2, Inr temp_path) \<Rightarrow>
                       (let temp_basename = snd (os_path_split temp_path)
                        in finally_block temp_path original_dir
                             (try_body ev temp_path temp_basename notebook_path w2)))))"

section \<open>\<open>runtest.py\<close>: the batch runner\<close>

text \<open>
  How a run of a script ends: it reaches the end of the script, it calls
  \<open>sys.exit\<close>, or an exception is not caught. The interpreter turns these into the exit
  status of the process.
\<close>

datatype outcome = Finished | SysExit int | Uncaught error

definition exit_status :: "outcome \<Rightarrow> int" where
  "exit_status oc = (case oc of Finished \<Rightarrow> 0 | SysExit n \<Rightarrow> n | Uncaught _ \<Rightarrow> 1)"

text \<open>
  The loop \<open>for n in notebooks_to_run\<close>; its state is the world and what has been
  printed to \<open>sys.stderr\<close>. \<open>notebooks[n]\<close> raises \<open>KeyError\<close> for a missing key, and
  \<open>assert\<close> raises \<open>AssertionError\<close> (the interpreter is run without \<open>-O\<close>).
\<close>

fun run_all :: "env \<Rightarrow> pystr list \<Rightarrow> world \<times> line list \<Rightarrow> world \<times> line list \<times> outcome" where
  "run_all ev [] (w, err) = (w, err, Finished)"
| "run_all ev (n # ns) (w, err) =
     (case map_of notebooks n of
        None \<Rightarrow> (w, err, Uncaught (KeyError n))
      | Some expected \<Rightarrow>
          (case notebook_run ev n w of
             (w', Inl e) \<Rightarrow> (w', err, Uncaught e)
           | (w', Inr (nb, errors)) \<Rightarrow>
               (case check_errors n expected errors of
                  Inl e \<Rightarrow> (w', err, Uncaught e)
                | Inr (ok, out) \<Rightarrow>
                    if ok then run_all ev ns (w', err @ out)
                    else (w', err @ out, Uncaught AssertionError))))"

definition usage :: "pystr \<Rightarrow> pystr list" where
  "usage argv0 =
     [lit ''Usage: '' @ argv0 @ lit '' [notebook_name.ipynb] [notebook_name_2.ipynb] [...]'',
      lit ''By default, check all notebooks if notebooks are not specified.'']"

text \<open>
  The choice of \<open>notebooks_to_run\<close> from \<open>sys.argv\<close>; \<open>Inl\<close> is the \<open>--help\<close> branch,
  which prints the usage and leaves with \<open>sys.exit(0)\<close>.
\<close>

definition notebooks_to_run :: "pystr list \<Rightarrow> pystr list + pystr list" where
  "notebooks_to_run argv =
     (if length argv > 1
      then (if argv ! 1 = lit ''--help'' then Inl (usage (argv ! 0)) else Inr (drop 1 argv))
      else Inr (sort (map fst notebooks)))"

text \<open>
  The script: the world at the end, \<open>sys.stdout\<close>, \<open>sys.stderr\<close> and the outcome.
  The diagnostics go to \<open>sys.stderr\<close>, whose error handler replaces a character that
  the encoding does not have; the usage goes to \<open>sys.stdout\<close> and is ASCII apart from
  the name of the script, which is taken to be writable there.
\<close>

definition runtest_main ::
  "env \<Rightarrow> pystr list \<Rightarrow> world \<Rightarrow> world \<times> pystr list \<times> line list \<times> outcome" where
  "runtest_main ev argv w =
     (case notebooks_to_run argv of
        Inl printed \<Rightarrow> (w, printed, [], SysExit 0)
      | Inr ns \<Rightarrow> (case run_all ev ns (w, []) of (w', err, oc) \<Rightarrow> (w', [], err, oc)))"

section \<open>\<open>run_notebook.py\<close>\<close>

definition run_notebook_args :: "pystr \<Rightarrow> pystr list" where
  "run_notebook_args notebook =
     [lit ''python'', lit ''-m'', lit ''nbconvert'', lit ''--to'', lit ''notebook'',
      lit ''--execute'', lit ''--allow-errors'', lit ''--ExecutePreprocessor.timeout=300'',
      lit ''--inplace'', notebook]"

text \<open>
  \<open>print\<close> to \<open>sys.stdout\<close>: the text is encoded with the encoding of the stream,
  whose error handler is \<open>strict\<close>, so a character that the encoding does not have
  raises \<open>UnicodeEncodeError\<close> and nothing of that line is written. The encoding is given
  by the code points it has. \<open>print_lines\<close> runs consecutive \<open>print\<close> statements: it
  returns what has been written and whether all of them returned.
\<close>

fun print_lines :: "(nat \<Rightarrow> bool) \<Rightarrow> pystr list \<Rightarrow> pystr list \<Rightarrow> pystr list \<times> bool" where
  "print_lines enc out [] = (out, True)"
| "print_lines enc out (l # ls) =
     (if list_all enc l then print_lines enc (out @ [l]) ls else (out, False))"

text \<open>
  The script, for a standard output with encoding \<open>enc\<close>: the world at the end, what was
  written to \<open>sys.stdout\<close> and the outcome. \<open>subprocess.check_call(args)\<close> and the two
  \<open>print\<close> statements after it stand inside \<open>try: ... except
  subprocess.CalledProcessError\<close>; 10003 and 10007 are the check mark and the ballot
  cross. An exception other than \<open>CalledProcessError\<close>, also one raised by a \<open>print\<close>
  inside the \<open>try\<close> block or inside the handler, is not caught.
\<close>

definition run_notebook_main ::
  "env \<Rightarrow> (nat \<Rightarrow> bool) \<Rightarrow> pystr list \<Rightarrow> world \<Rightarrow> world \<times> pystr list \<times> outcome" where
  "run_notebook_main ev enc argv w =
     (if length argv < 2
      then (case print_lines enc []
                   [lit ''Usage: python run_notebook.py <notebook_name.ipynb>'',
                    lit ''Example: python run_notebook.py 1_intro_to_scala.ipynb''] of
              (out, True) \<Rightarrow> (w, out, SysExit 1)
            | (out, False) \<Rightarrow> (w, out, Uncaught UnicodeEncodeError))
      else
        (let notebook = argv ! 1
         in case print_lines enc [] [lit ''Executing notebook: '' @ notebook, replicate 60 61] of
              (out, False) \<Rightarrow> (w, out, Uncaught UnicodeEncodeError)
            | (out, True) \<Rightarrow>
                (case check_call ev (run_notebook_args notebook) w of
                   (w', Inr _) \<Rightarrow>
                     (case print_lines enc out
                             [replicate 60 61,
                              [10003] @ lit '' Successfully executed '' @ notebook] of
                        (out', True) \<Rightarrow> (w', out', Finished)
                      | (out', False) \<Rightarrow> (w', out', Uncaught UnicodeEncodeError))
                 | (w', Inl (CalledProcessError returncode)) \<Rightarrow>
                     (case print_lines enc out
                             [replicate 60 61,
                              [10007] @ lit '' Error executing '' @ notebook,
                              lit ''Exit code: '' @ str_int returncode] of
                        (out', True) \<Rightarrow> (w', out', SysExit 1)
                      | (out', False) \<Rightarrow> (w', out', Uncaught UnicodeEncodeError))
                 | (w', Inl e) \<Rightarrow> (w', out, Uncaught e))))"

section \<open>Concrete worlds and services\<close>

text \<open>
  A small world (working directory \<open>/w\<close> with a subdirectory \<open>sub\<close>, temporary
  directory \<open>/tmp\<close>, no files) and three execution services, used to run the scripts on
  concrete inputs: one whose child process exits with code 1, one that yields a notebook
  with a single error output, and one that yields a notebook without errors.
\<close>

definition example_world :: world where
  "example_world =
     \<lparr>cwd = lit ''/w'', dirs = {lit ''/w'', lit ''/w/sub'', lit ''/tmp''}, files = Map.empty,
      tmpdir = lit ''/tmp'', names = [lit ''abc'', lit ''def''], calls = []\<rparr>"

definition failing_service :: env where
  "failing_service =
     \<lparr>nbconvert = (\<lambda>args d fs. (Inr 1, fs)), nbformat_read = (\<lambda>content. Inl ReadError)\<rparr>"

definition boom_output :: nb_output where
  "boom_output = \<lparr>output_type = lit ''error'', traceback = Some [lit ''java.lang.Exception: boom'']\<rparr>"

definition boom_service :: env where
  "boom_service =
     \<lparr>nbconvert = (\<lambda>args d fs. (Inr 0, fs)),
      nbformat_read = (\<lambda>content. Inr \<lparr>cells = [\<lparr>outputs = None\<rparr>, \<lparr>outputs = Some [boom_output]\<rparr>]\<rparr>)\<rparr>"

definition quiet_service :: env where
  "quiet_service =
     \<lparr>nbconvert = (\<lambda>args d fs. (Inr 0, fs)),
      nbformat_read = (\<lambda>content. Inr \<lparr>cells = [\<lparr>outputs = Some []\<rparr>]\<rparr>)\<rparr>"

text \<open>
  Two encodings of standard output: UTF-8, which has every character, and an encoding
  with one byte per character such as Latin-1 (what a redirected standard output has on
  many systems), which has the code points below 256 and so neither the check mark nor
  the ballot cross.
\<close>

definition utf8_stdout :: "nat \<Rightarrow> bool" where
  "utf8_stdout c = True"

definition latin1_stdout :: "nat \<Rightarrow> bool" where
  "latin1_stdout c = (c < 256)"

text \<open>Absolute paths, as \<open>os.getcwd()\<close> returns them.\<close>

definition absolute :: "pystr \<Rightarrow> bool" where
  "absolute p \<longleftrightarrow> p \<noteq> [] \<and> hd p = sep"

section \<open>Properties of the comparison\<close>

lemma py_in_iff: "py_in e a \<longleftrightarrow> (\<exists>p s. a = p @ e @ s)"
proof (induction a)
  case Nil
  then show ?case by simp
next
  case (Cons c cs)
  show ?case
  proof
    assume "py_in e (c # cs)"
    then consider "prefix e (c # cs)" | "py_in e cs" by auto
    then show "\<exists>p s. c # cs = p @ e @ s"
    proof cases
      case 1
      then obtain s where "c # cs = e @ s" by (auto simp: prefix_def)
      then have "c # cs = [] @ e @ s" by simp
      then show ?thesis by blast
    next
      case 2
      with Cons.IH obtain p s where "cs = p @ e @ s" by blast
      then have "c # cs = (c # p) @ e @ s" by simp
      then show ?thesis by blast
    qed
  next
    assume "\<exists>p s. c # cs = p @ e @ s"
    then obtain p s where ps: "c # cs = p @ e @ s" by blast
    show "py_in e (c # cs)"
    proof (cases p)
      case Nil
      with ps have "prefix e (c # cs)" by (simp add: prefix_def)
      then show ?thesis by simp
    next
      case (Cons d p')
      with ps have "cs = p' @ e @ s" by simp
      with Cons.IH have "py_in e cs" by blast
      then show ?thesis by simp
    qed
  qed
qed

lemma signature_first_line: "has_first_line x \<Longrightarrow> signature x = Inr (take 100 (first_line x))"
  by (auto simp: has_first_line_def first_line_def signature_def split: option.splits list.splits)

lemma actual_tracebacks_ok:
  "\<forall>x\<in>set A. has_first_line x \<Longrightarrow>
   actual_tracebacks A = Inr (map (\<lambda>x. take 100 (first_line x)) A)"
  by (induction A) (simp_all add: signature_first_line)

lemma length_zip_longest: "length (zip_longest xs ys f) = max (length xs) (length ys)"
  by (induction xs ys f rule: zip_longest.induct) simp_all

lemma nth_zip_longest:
  "i < max (length xs) (length ys) \<Longrightarrow>
   zip_longest xs ys f ! i =
     (if i < length xs then xs ! i else f, if i < length ys then ys ! i else f)"
proof (induction xs ys f arbitrary: i rule: zip_longest.induct)
  case (1 f)
  then show ?case by simp
next
  case (2 x xs f)
  then show ?case by (cases i) simp_all
next
  case (3 y ys f)
  then show ?case by (cases i) simp_all
next
  case (4 x xs y ys f)
  then show ?case by (cases i) simp_all
qed

lemma check_loop_fst:
  "fst (check_loop fn ps (rv, out)) = (rv \<and> (\<forall>(i, e, a)\<in>set ps. py_in e a))"
  by (induction ps arbitrary: rv out) (auto split: if_splits)

lemma check_loop_snd:
  "snd (check_loop fn ps (rv, out)) =
     out @ (if rv \<and> filter (\<lambda>(i, e, a). \<not> py_in e a) ps \<noteq> [] then [Bar, Header fn] else [])
         @ map (\<lambda>(i, e, a). NoMatch i e (take 100 a)) (filter (\<lambda>(i, e, a). \<not> py_in e a) ps)"
  by (induction ps arbitrary: rv out) (auto split: if_splits)

lemma check_errors_sigs:
  fixes E sigs :: "pystr list"
  assumes "actual_tracebacks A = Inr sigs"
  defines "ps \<equiv> enumerate 0 (zip_longest E sigs sentinel)"
  shows "check_errors fn E A =
           Inr (\<forall>(i, e, a)\<in>set ps. py_in e a,
                if \<forall>(i, e, a)\<in>set ps. py_in e a then []
                else [Bar, Header fn]
                     @ map (\<lambda>(i, e, a). NoMatch i e (take 100 a)) (filter (\<lambda>(i, e, a). \<not> py_in e a) ps)
                     @ [Bar])"
proof -
  let ?bad = "filter (\<lambda>(i, e, a). \<not> py_in e a) ps"
  obtain rv out where r: "check_loop fn ps (True, []) = (rv, out)" by fastforce
  have 1: "rv = (\<forall>(i, e, a)\<in>set ps. py_in e a)"
    using check_loop_fst [of fn ps True "[]"] r by simp
  have 2: "out = (if ?bad \<noteq> [] then [Bar, Header fn] else [])
         @ map (\<lambda>(i, e, a). NoMatch i e (take 100 a)) ?bad"
    using check_loop_snd [of fn ps True "[]"] r by simp
  have 3: "check_errors fn E A = Inr (rv, if \<not> rv then out @ [Bar] else out)"
    using r by (simp add: check_errors_def assms(1) ps_def)
  have 4: "(?bad = []) = rv"
    unfolding 1 by (auto simp: filter_empty_conv)
  show ?thesis
  proof (cases rv)
    case True
    with 4 have "?bad = []" by simp
    with True 1 2 3 show ?thesis by simp
  next
    case False
    with 4 have "?bad \<noteq> []" by simp
    with False 1 2 3 show ?thesis by simp
  qed
qed

lemma check_errors_char:
  fixes E :: "pystr list" and A :: "nb_output list"
  assumes "\<forall>x\<in>set A. has_first_line x"
  defines "ps \<equiv> enumerate 0 (zip_longest E (map (\<lambda>x. take 100 (first_line x)) A) sentinel)"
  shows "check_errors fn E A =
           Inr (\<forall>(i, e, a)\<in>set ps. py_in e a,
                if \<forall>(i, e, a)\<in>set ps. py_in e a then []
                else [Bar, Header fn]
                     @ map (\<lambda>(i, e, a). NoMatch i e (take 100 a)) (filter (\<lambda>(i, e, a). \<not> py_in e a) ps)
                     @ [Bar])"
  unfolding ps_def by (rule check_errors_sigs [OF actual_tracebacks_ok [OF assms(1)]])

lemma check_errors_returns:
  assumes "check_errors fn E A = Inr r"
  shows "\<exists>sigs. actual_tracebacks A = Inr sigs"
  using assms by (cases "actual_tracebacks A") (simp_all add: check_errors_def)

lemma in_positions:
  "(i, e, a) \<in> set (enumerate 0 (zip_longest E S f)) \<longleftrightarrow>
     i < max (length E) (length S)
     \<and> e = (if i < length E then E ! i else f) \<and> a = (if i < length S then S ! i else f)"
  by (auto simp: in_set_enumerate_eq length_zip_longest nth_zip_longest)

text \<open>
  Claim C2. When the expected list and the list of actual errors have the same length and,
  at every index, the expected string is a substring of the first 100 characters of the
  first traceback line of the actual error, \<open>check_errors\<close> returns \<open>True\<close> (and
  prints nothing).
\<close>

theorem check_errors_all_match:
  assumes "length E = length A"
    and "\<forall>i<length A. has_first_line (A ! i) \<and> py_in (E ! i) (take 100 (first_line (A ! i)))"
  shows "check_errors file_name E A = Inr (True, [])"
proof -
  have fl: "\<forall>x\<in>set A. has_first_line x"
    using assms(2) by (auto simp: in_set_conv_nth)
  have "\<forall>(i, e, a)\<in>set (enumerate 0 (zip_longest E (map (\<lambda>x. take 100 (first_line x)) A) sentinel)).
          py_in e a"
    using assms by (auto simp: in_positions)
  then show ?thesis
    using check_errors_char [OF fl, of file_name E] by simp
qed

text \<open>
  The second scenario of the specification: the one expected signature of
  \<open>4.4_firrtl_add_ops_per_module.ipynb\<close> occurs in the first traceback line.
\<close>

theorem check_errors_all_match_witness:
  "length [lit ''FirrtlInternalException''] =
     length [\<lparr>output_type = lit ''error'',
              traceback = Some [lit ''firrtl.FirrtlInternalException: bug 129'', lit ''at line 1'']\<rparr>]
   \<and> check_errors (lit ''4.4_firrtl_add_ops_per_module.ipynb'') [lit ''FirrtlInternalException'']
        [\<lparr>output_type = lit ''error'',
          traceback = Some [lit ''firrtl.FirrtlInternalException: bug 129'', lit ''at line 1'']\<rparr>]
      = Inr (True, [])"
  using check_errors_all_match [of "[lit ''FirrtlInternalException'']"
      "[\<lparr>output_type = lit ''error'',
         traceback = Some [lit ''firrtl.FirrtlInternalException: bug 129'', lit ''at line 1'']\<rparr>]"
      "lit ''4.4_firrtl_add_ops_per_module.ipynb''"]
  by (simp add: has_first_line_def first_line_def lit_def)

text \<open>
  Claim C3. At a position that both lists have, only the first 100 characters of the
  first traceback line count: when the expected string occurs in that prefix, no
  diagnostic is printed for the position; when it does not occur in the prefix (even if
  it occurs further on in the line), the position is reported with the truncated line and
  \<open>check_errors\<close> returns \<open>False\<close>.
\<close>

theorem check_errors_truncation:
  assumes "\<forall>x\<in>set A. has_first_line x" and "i < length E" and "i < length A"
  shows "\<exists>rv out. check_errors file_name E A = Inr (rv, out)
           \<and> (py_in (E ! i) (take 100 (first_line (A ! i))) \<longrightarrow> (\<forall>e a. NoMatch i e a \<notin> set out))
           \<and> (\<not> py_in (E ! i) (take 100 (first_line (A ! i))) \<longrightarrow>
                \<not> rv \<and> NoMatch i (E ! i) (take 100 (first_line (A ! i))) \<in> set out)"
proof -
  let ?ps = "enumerate 0 (zip_longest E (map (\<lambda>x. take 100 (first_line x)) A) sentinel)"
  let ?s = "take 100 (first_line (A ! i))"
  have mem: "(i, E ! i, ?s) \<in> set ?ps"
    using assms(2,3) by (simp add: in_positions)
  have uniq: "e = E ! i \<and> a = ?s" if "(i, e, a) \<in> set ?ps" for e a
    using that assms(2,3) by (simp add: in_positions)
  show ?thesis
  proof (cases "py_in (E ! i) ?s")
    case True
    have "NoMatch i e a \<notin> set (map (\<lambda>(i, e, a). NoMatch i e (take 100 a))
            (filter (\<lambda>(i, e, a). \<not> py_in e a) ?ps))" for e a
      using True uniq by auto
    with True show ?thesis
      using check_errors_char [OF assms(1), of file_name E] by auto
  next
    case False
    with mem have bad: "(i, E ! i, ?s) \<in> set (filter (\<lambda>(i, e, a). \<not> py_in e a) ?ps)"
      by simp
    have "NoMatch i (E ! i) (take 100 ?s) \<in> set (map (\<lambda>(i, e, a). NoMatch i e (take 100 a))
            (filter (\<lambda>(i, e, a). \<not> py_in e a) ?ps))"
      using bad by (force simp del: set_filter)
    moreover have "\<not> (\<forall>(i, e, a)\<in>set ?ps. py_in e a)"
      using mem False by blast
    ultimately show ?thesis
      using False check_errors_char [OF assms(1), of file_name E] by simp
  qed
qed


text \<open>
  A line of 104 characters whose last four are the expected string: the string occurs in
  the line, not in its first 100 characters, and the comparison fails.
\<close>

theorem check_errors_truncation_witness:
  "has_first_line \<lparr>output_type = lit ''error'', traceback = Some [replicate 100 120 @ lit ''boom'']\<rparr>
   \<and> 0 < length [lit ''boom'']
   \<and> 0 < length [\<lparr>output_type = lit ''error'', traceback = Some [replicate 100 120 @ lit ''boom'']\<rparr>]
   \<and> py_in (lit ''boom'') (replicate 100 120 @ lit ''boom'')
   \<and> \<not> py_in (lit ''boom'') (take 100 (replicate 100 120 @ lit ''boom''))
   \<and> (\<exists>out. check_errors (lit ''n.ipynb'') [lit ''boom'']
               [\<lparr>output_type = lit ''error'', traceback = Some [replicate 100 120 @ lit ''boom'']\<rparr>]
             = Inr (False, out)
          \<and> NoMatch 0 (lit ''boom'') (replicate 100 120) \<in> set out)"
proof -
  have inside: "py_in (lit ''boom'') (replicate 100 120 @ lit ''boom'')"
    by (simp add: py_in_iff) blast
  have b: "98 \<in> set (lit ''boom'')"
    by (simp add: lit_def)
  have "\<not> py_in (lit ''boom'') (replicate n 120)" for n
  proof
    assume "py_in (lit ''boom'') (replicate n 120)"
    then obtain p s where "replicate n 120 = p @ lit ''boom'' @ s"
      unfolding py_in_iff by blast
    then have "set (replicate n (120::nat)) = set p \<union> set (lit ''boom'') \<union> set s"
      by (simp add: Un_assoc)
    with b have "98 \<in> set (replicate n (120::nat))" by blast
    then show False by simp
  qed
  then have outside: "\<not> py_in (lit ''boom'') (take 100 (replicate 100 120 @ lit ''boom''))"
    by simp
  show ?thesis
    using inside outside check_errors_truncation [of
      "[\<lparr>output_type = lit ''error'', traceback = Some [replicate 100 120 @ lit ''boom'']\<rparr>]"
      0 "[lit ''boom'']" "lit ''n.ipynb''"]
    by (auto simp: has_first_line_def first_line_def)
qed

lemma py_in_Nil: "py_in [] a"
  by (induction a) simp_all

text \<open>
  Claim C10. A position whose expected string is empty always matches, whatever stands
  opposite (a truncated line or the padding value): no diagnostic is printed for it, and
  the result is decided by the other positions alone. So \<open>check_errors\<close> can return
  \<open>True\<close> for an expected list that is longer than the list of actual errors.
\<close>

theorem empty_expected_matches:
  assumes "\<forall>x\<in>set A. has_first_line x" and "i < length E" and "E ! i = []"
  shows "\<exists>rv out. check_errors file_name E A = Inr (rv, out)
           \<and> (\<forall>e a. NoMatch i e a \<notin> set out)
           \<and> (rv \<longleftrightarrow> (\<forall>j<max (length E) (length A). j \<noteq> i \<longrightarrow>
                  py_in (if j < length E then E ! j else sentinel)
                        (if j < length A then take 100 (first_line (A ! j)) else sentinel)))"
proof -
  let ?S = "map (\<lambda>x. take 100 (first_line x)) A"
  let ?ps = "enumerate 0 (zip_longest E ?S sentinel)"
  have no: "NoMatch i e a \<notin> set (map (\<lambda>(i, e, a). NoMatch i e (take 100 a))
            (filter (\<lambda>(i, e, a). \<not> py_in e a) ?ps))" for e a
    using assms(2,3) by (auto simp: in_positions py_in_Nil)
  have rv: "(\<forall>(j, e, a)\<in>set ?ps. py_in e a) \<longleftrightarrow>
        (\<forall>j<max (length E) (length A). j \<noteq> i \<longrightarrow>
                  py_in (if j < length E then E ! j else sentinel)
                        (if j < length A then take 100 (first_line (A ! j)) else sentinel))"
    (is "?L \<longleftrightarrow> ?R")
  proof
    assume L: ?L
    show ?R
    proof (intro allI impI)
      fix j assume j: "j < max (length E) (length A)" "j \<noteq> i"
      then have "(j, if j < length E then E ! j else sentinel,
                     if j < length ?S then ?S ! j else sentinel) \<in> set ?ps"
        by (simp add: in_positions)
      with L have "py_in (if j < length E then E ! j else sentinel)
                     (if j < length ?S then ?S ! j else sentinel)" by blast
      then show "py_in (if j < length E then E ! j else sentinel)
                        (if j < length A then take 100 (first_line (A ! j)) else sentinel)"
        by (simp split: if_splits)
    qed
  next
    assume R: ?R
    show ?L
    proof (clarify)
      fix j e a assume m: "(j, e, a) \<in> set ?ps"
      show "py_in e a"
      proof (cases "j = i")
        case True
        with m assms(2,3) show ?thesis by (simp add: in_positions py_in_Nil)
      next
        case False
        with m R show ?thesis by (auto simp: in_positions split: if_splits)
      qed
    qed
  qed
  show ?thesis
    using no rv check_errors_char [OF assms(1), of file_name E] by auto
qed

text \<open>The expected list \<open>[""]\<close> against no actual error.\<close>

theorem empty_expected_matches_witness:
  "length ([] :: nb_output list) < length [[] :: pystr]
   \<and> (\<exists>out. check_errors (lit ''n.ipynb'') [[]] [] = Inr (True, out))"
  using empty_expected_matches [of "[]" 0 "[[]]" "lit ''n.ipynb''"]
  by auto

text \<open>
  Claim C1, amended. The claim as stated does not hold: the padding value is compared
  like any other string, so a missing actual error is matched by an expected string that
  occurs in \<open>-- No Error --\<close>, and a surplus actual error is matched when its line
  contains \<open>-- No Error --\<close>. What holds: for lists of different lengths,
  \<open>check_errors\<close> returns \<open>False\<close> and reports the first index where the shorter list
  ran out, provided that the pair at that index does not match in this accidental way.
\<close>

theorem length_mismatch_fails:
  assumes "length E \<noteq> length A" and "\<forall>x\<in>set A. has_first_line x"
    and "length A < length E \<longrightarrow> \<not> py_in (E ! length A) sentinel"
    and "length E < length A \<longrightarrow> \<not> py_in sentinel (take 100 (first_line (A ! length E)))"
  shows "\<exists>out e a. check_errors file_name E A = Inr (False, out)
           \<and> NoMatch (min (length E) (length A)) e a \<in> set out"
proof -
  let ?S = "map (\<lambda>x. take 100 (first_line x)) A"
  let ?ps = "enumerate 0 (zip_longest E ?S sentinel)"
  let ?k = "min (length E) (length A)"
  let ?e = "if ?k < length E then E ! ?k else sentinel"
  let ?a = "if ?k < length ?S then ?S ! ?k else sentinel"
  have mem: "(?k, ?e, ?a) \<in> set ?ps"
    using assms(1) by (simp only: in_positions) auto
  have bad: "\<not> py_in ?e ?a"
    using assms(1,3,4) by (cases "length A < length E") (auto simp: min_def)
  from mem bad have "(?k, ?e, ?a) \<in> set (filter (\<lambda>(i, e, a). \<not> py_in e a) ?ps)"
    by simp
  then have "NoMatch ?k ?e (take 100 ?a) \<in> set (map (\<lambda>(i, e, a). NoMatch i e (take 100 a))
            (filter (\<lambda>(i, e, a). \<not> py_in e a) ?ps))"
    by (force simp del: set_filter)
  moreover have "\<not> (\<forall>(i, e, a)\<in>set ?ps. py_in e a)"
    using mem bad by blast
  ultimately show ?thesis
    using check_errors_char [OF assms(2), of file_name E]
    by (intro exI [of _ "[Bar, Header file_name]
          @ map (\<lambda>(i, e, a). NoMatch i e (take 100 a)) (filter (\<lambda>(i, e, a). \<not> py_in e a) ?ps)
          @ [Bar]"] exI [of _ ?e] exI [of _ "take 100 ?a"]) simp
qed

text \<open>An expected \<open>Compilation Failed\<close> that did not happen.\<close>

theorem length_mismatch_fails_witness:
  "length [Compilation_Failed] \<noteq> length ([] :: nb_output list)
   \<and> \<not> py_in ([Compilation_Failed] ! length ([] :: nb_output list)) sentinel
   \<and> (\<exists>out e a. check_errors (lit ''3.5_object_oriented_programming.ipynb'') [Compilation_Failed] []
                   = Inr (False, out)
         \<and> NoMatch 0 e a \<in> set out)"
  using length_mismatch_fails [of "[Compilation_Failed]" "[]" "lit ''3.5_object_oriented_programming.ipynb''"]
  by (simp add: Compilation_Failed_def sentinel_def lit_def)

text \<open>
  The counterexample to claim C1 as stated: the non-empty expected string \<open>Error\<close> is a
  substring of the padding value, so one expected error against none is accepted.
\<close>

theorem length_mismatch_counterexample:
  "length [lit ''Error''] \<noteq> length ([] :: nb_output list)
   \<and> lit ''Error'' \<noteq> []
   \<and> check_errors (lit ''n.ipynb'') [lit ''Error''] [] = Inr (True, [])"
  by (simp add: check_errors_def sentinel_def lit_def)

section \<open>Properties of the catalog\<close>

text \<open>
  Claim C9. Every expected signature of the catalog has at most 100 characters, so the
  truncation of an actual line to 100 characters cannot by itself make it unmatchable: a
  line that starts with the signature still matches after truncation.
\<close>

theorem catalog_signatures_short:
  "\<forall>(k, es)\<in>set notebooks. \<forall>e\<in>set es.
     length e \<le> 100 \<and> (\<forall>rest. py_in e (take 100 (e @ rest)))"
proof -
  have len: "\<forall>(k, es)\<in>set notebooks. \<forall>e\<in>set es. length e \<le> 100"
    by (simp add: notebooks_def ChiselException_elaborating_def Compilation_Failed_def
      NotImplementedError_def expected_paren_def lit_def)
  have "py_in e (take 100 (e @ rest))" if "length e \<le> 100" for e rest :: pystr
  proof -
    have "take 100 (e @ rest) = [] @ e @ take (100 - length e) rest"
      using that by simp
    then show ?thesis unfolding py_in_iff by blast
  qed
  with len show ?thesis by fastforce
qed

text \<open>The longest signature of the catalog has 93 characters.\<close>

theorem catalog_signatures_short_witness:
  "(lit ''2.1_first_module.ipynb'', [ChiselException_elaborating]) \<in> set notebooks
   \<and> ChiselException_elaborating \<in> set [ChiselException_elaborating]
   \<and> length ChiselException_elaborating = 93
   \<and> py_in ChiselException_elaborating (take 100 (ChiselException_elaborating @ lit '': boom''))"
proof -
  have m: "(lit ''2.1_first_module.ipynb'', [ChiselException_elaborating]) \<in> set notebooks"
    by (simp add: notebooks_def)
  have l: "length ChiselException_elaborating = 93"
    by (simp add: ChiselException_elaborating_def lit_def)
  from catalog_signatures_short m
  have "\<forall>e\<in>set [ChiselException_elaborating].
     length e \<le> 100 \<and> (\<forall>rest. py_in e (take 100 (e @ rest)))"
    by blast
  with m l show ?thesis by simp
qed

section \<open>Properties of the scripts\<close>

lemma run_all_append:
  "run_all ev (pre @ rest) (w, err) =
     (case run_all ev pre (w, err) of
        (w', err', Finished) \<Rightarrow> run_all ev rest (w', err')
      | r \<Rightarrow> r)"
proof (induction pre arbitrary: w err)
  case Nil
  then show ?case by simp
next
  case (Cons n pre)
  show ?case
    by (simp add: Cons.IH split: option.splits sum.splits prod.splits outcome.splits)
qed

text \<open>
  Claim C5, amended. The claim as stated does not hold for every identifier that is
  passed: the lookup \<open>notebooks[n]\<close> happens when the loop reaches \<open>n\<close>, and the loop
  stops at the first notebook that fails. What holds: when the requested sequence contains
  an identifier \<open>n\<close> that is not a key of the catalog and every notebook before it ran
  and passed, the run ends with an uncaught \<open>KeyError\<close> for \<open>n\<close>, and nothing was
  executed for \<open>n\<close>: the world is the one the preceding notebooks left (no child
  process, no temporary file).
\<close>

theorem unknown_notebook_lookup_failure:
  assumes "notebooks_to_run argv = Inr (pre @ n # post)"
    and "map_of notebooks n = None"
    and "run_all ev pre (w, []) = (w1, err1, Finished)"
  shows "runtest_main ev argv w = (w1, [], err1, Uncaught (KeyError n))"
  using assms by (simp add: runtest_main_def run_all_append)

lemmas eval_defs = notebook_run_def os_path_split_def os_chdir_def abspath_def os_path_join_def
  mkstemp_def lit_def sep_def try_body_def finally_block_def check_call_def read_notebook_def
  nbconvert_args_def unlink_quietly_def collect_errors_def Let_def

lemma nonexistent_not_key: "map_of notebooks (lit ''nonexistent.ipynb'') = None"
  by (simp add: notebooks_def lit_def)

lemma intro_key: "map_of notebooks (lit ''1_intro_to_scala.ipynb'') = Some []"
  by (simp add: notebooks_def lit_def)

text \<open>The third scenario of the specification: \<open>nonexistent.ipynb\<close> alone.\<close>

theorem unknown_notebook_lookup_failure_witness:
  "map_of notebooks (lit ''nonexistent.ipynb'') = None
   \<and> runtest_main quiet_service [lit ''runtest.py'', lit ''nonexistent.ipynb''] example_world
       = (example_world, [], [], Uncaught (KeyError (lit ''nonexistent.ipynb'')))"
proof -
  have a: "notebooks_to_run [lit ''runtest.py'', lit ''nonexistent.ipynb'']
             = Inr ([] @ lit ''nonexistent.ipynb'' # [])"
    by (simp add: notebooks_to_run_def lit_def)
  show ?thesis
    using unknown_notebook_lookup_failure [OF a nonexistent_not_key, of quiet_service example_world
        example_world "[]"]
      nonexistent_not_key
    by simp
qed

text \<open>
  The counterexample to claim C5 as stated: \<open>nonexistent.ipynb\<close> is passed after a
  notebook whose execution fails, and the run ends with \<open>CalledProcessError\<close>, not with
  a lookup failure.
\<close>

theorem unknown_notebook_counterexample:
  "lit ''nonexistent.ipynb'' \<in> set (drop 1 [lit ''runtest.py'', lit ''1_intro_to_scala.ipynb'', lit ''nonexistent.ipynb''])
   \<and> map_of notebooks (lit ''nonexistent.ipynb'') = None
   \<and> snd (snd (snd (runtest_main failing_service
        [lit ''runtest.py'', lit ''1_intro_to_scala.ipynb'', lit ''nonexistent.ipynb''] example_world)))
       = Uncaught (CalledProcessError 1)"
proof -
  have 1: "notebooks_to_run [lit ''runtest.py'', lit ''1_intro_to_scala.ipynb'', lit ''nonexistent.ipynb'']
      = Inr [lit ''1_intro_to_scala.ipynb'', lit ''nonexistent.ipynb'']"
    by (simp add: notebooks_to_run_def lit_def)
  have 2: "snd (notebook_run failing_service (lit ''1_intro_to_scala.ipynb'') example_world)
      = Inl (CalledProcessError 1)"
    by (simp add: eval_defs example_world_def failing_service_def)
  then obtain w' where 3: "notebook_run failing_service (lit ''1_intro_to_scala.ipynb'') example_world
      = (w', Inl (CalledProcessError 1))"
    by (cases "notebook_run failing_service (lit ''1_intro_to_scala.ipynb'') example_world") simp
  show ?thesis
    by (simp add: runtest_main_def 1 3 intro_key nonexistent_not_key)
qed


text \<open>
  Claim C6. When the loop reaches a notebook whose comparison returns \<open>False\<close>, the run
  ends there with an uncaught \<open>AssertionError\<close>: the world is the one that notebook's
  execution left, so no later notebook of the requested sequence is executed. What
  \<open>check_errors\<close> printed before contains a diagnostic for every position that does not
  match, not only for the first.
\<close>

theorem mismatch_aborts_batch:
  assumes "notebooks_to_run argv = Inr (pre @ n # post)"
    and "run_all ev pre (w, []) = (w1, err1, Finished)"
    and "map_of notebooks n = Some expected"
    and "notebook_run ev n w1 = (w2, Inr (nb, errors))"
    and "check_errors n expected errors = Inr (False, out)"
  shows "runtest_main ev argv w = (w2, [], err1 @ out, Uncaught AssertionError)
     \<and> (\<exists>sigs. actual_tracebacks errors = Inr sigs
          \<and> (\<forall>i e a. (i, e, a) \<in> set (enumerate 0 (zip_longest expected sigs sentinel)) \<longrightarrow>
                 \<not> py_in e a \<longrightarrow> NoMatch i e (take 100 a) \<in> set out))"
proof -
  have main: "runtest_main ev argv w = (w2, [], err1 @ out, Uncaught AssertionError)"
    using assms by (simp add: runtest_main_def run_all_append)
  obtain sigs where sigs: "actual_tracebacks errors = Inr sigs"
    using check_errors_returns [OF assms(5)] by blast
  let ?ps = "enumerate 0 (zip_longest expected sigs sentinel)"
  have out: "out = [Bar, Header n]
       @ map (\<lambda>(i, e, a). NoMatch i e (take 100 a)) (filter (\<lambda>(i, e, a). \<not> py_in e a) ?ps)
       @ [Bar]"
    using check_errors_sigs [OF sigs, of n expected] assms(5) by (simp split: if_splits)
  have "NoMatch i e (take 100 a) \<in> set out" if "(i, e, a) \<in> set ?ps" "\<not> py_in e a" for i e a
  proof -
    from that have "(i, e, a) \<in> set (filter (\<lambda>(i, e, a). \<not> py_in e a) ?ps)" by simp
    then have "NoMatch i e (take 100 a) \<in> set (map (\<lambda>(i, e, a). NoMatch i e (take 100 a))
            (filter (\<lambda>(i, e, a). \<not> py_in e a) ?ps))"
      by (force simp del: set_filter)
    then show ?thesis unfolding out by simp
  qed
  with main sigs show ?thesis by blast
qed

text \<open>
  The first scenario of the specification: \<open>1_intro_to_scala.ipynb\<close> expects no error
  and one occurs; the second requested notebook is never executed.
\<close>

theorem mismatch_aborts_batch_witness:
  "map_of notebooks (lit ''1_intro_to_scala.ipynb'') = Some []
   \<and> (\<exists>w'. runtest_main boom_service
               [lit ''runtest.py'', lit ''1_intro_to_scala.ipynb'', lit ''2.6_chiseltest.ipynb'']
               example_world
             = (w', [],
                [Bar, Header (lit ''1_intro_to_scala.ipynb''),
                 NoMatch 0 sentinel (lit ''java.lang.Exception: boom''), Bar],
                Uncaught AssertionError)
          \<and> length (calls w') = 1)"
proof -
  let ?n = "lit ''1_intro_to_scala.ipynb''"
  let ?nb = "\<lparr>cells = [\<lparr>outputs = None\<rparr>, \<lparr>outputs = Some [boom_output]\<rparr>]\<rparr>"
  have a: "notebooks_to_run [lit ''runtest.py'', ?n, lit ''2.6_chiseltest.ipynb'']
             = Inr ([] @ ?n # [lit ''2.6_chiseltest.ipynb''])"
    by (simp add: notebooks_to_run_def lit_def)
  have b: "run_all boom_service [] (example_world, []) = (example_world, [], Finished)"
    by simp
  have "snd (notebook_run boom_service ?n example_world) = Inr (?nb, [boom_output])"
    by (simp add: eval_defs example_world_def boom_service_def boom_output_def)
  moreover have "length (calls (fst (notebook_run boom_service ?n example_world))) = 1"
    by (simp add: eval_defs example_world_def boom_service_def)
  ultimately obtain w2 where c: "notebook_run boom_service ?n example_world = (w2, Inr (?nb, [boom_output]))"
    and d: "length (calls w2) = 1"
    by (cases "notebook_run boom_service ?n example_world") simp
  have e: "check_errors ?n [] [boom_output]
      = Inr (False, [Bar, Header ?n, NoMatch 0 sentinel (lit ''java.lang.Exception: boom''), Bar])"
    by (simp add: check_errors_def boom_output_def signature_def sentinel_def lit_def)
  show ?thesis
    using mismatch_aborts_batch [OF a b intro_key c e] d intro_key by simp
qed


lemma keys_distinct: "distinct (map fst notebooks)"
  by (simp add: notebooks_def lit_def)

lemma keys_no_sep: "\<forall>k\<in>set (map fst notebooks). sep \<notin> set k"
  by (simp add: notebooks_def lit_def sep_def)

lemma key_no_sep: "map_of notebooks n = Some expected \<Longrightarrow> sep \<notin> set n"
  using keys_no_sep map_of_SomeD [of notebooks n expected] by force

lemma os_path_split_no_sep: "sep \<notin> set p \<Longrightarrow> os_path_split p = ([], p)"
proof -
  assume a: "sep \<notin> set p"
  then have tw: "takeWhile (\<lambda>c. c \<noteq> sep) (rev p) = rev p"
    by (auto simp: takeWhile_eq_all_conv)
  show ?thesis by (simp add: os_path_split_def tw)
qed

lemma finally_block_calls:
  "finally_block tp od (w, r) = (w', r') \<Longrightarrow> calls w' = calls w"
  by (auto simp: finally_block_def unlink_quietly_def os_chdir_def Let_def split: sum.splits if_splits)

lemma try_body_calls:
  "try_body ev tp tb np w = (w', r) \<Longrightarrow> calls w' = calls w @ [nbconvert_args tb np]"
  by (auto simp: try_body_def check_call_def split: prod.splits sum.splits if_splits)

lemma mkstemp_calls:
  "mkstemp suf dir w = (w', r) \<Longrightarrow> calls w' = calls w"
  by (auto simp: mkstemp_def Let_def split: if_splits list.splits)

lemma notebook_run_calls:
  assumes "sep \<notin> set n" and "notebook_run ev n w = (w', r)"
  shows "(calls w' = calls w \<and> (\<exists>e. r = Inl e)) \<or> (\<exists>tb. calls w' = calls w @ [nbconvert_args tb n])"
proof -
  obtain w2 r2 where m: "mkstemp (lit ''.ipynb'') None w = (w2, r2)" by fastforce
  show ?thesis
  proof (cases r2)
    case (Inl e)
    with assms m show ?thesis
      using mkstemp_calls [OF m] by (auto simp: notebook_run_def os_path_split_no_sep)
  next
    case (Inr temp_path)
    obtain w3 r3 where t: "try_body ev temp_path (snd (os_path_split temp_path)) n w2 = (w3, r3)"
      by fastforce
    from assms m Inr t have "finally_block temp_path (cwd w) (w3, r3) = (w', r)"
      by (simp add: notebook_run_def os_path_split_no_sep)
    then have "calls w' = calls w3" by (rule finally_block_calls)
    with try_body_calls [OF t] mkstemp_calls [OF m] show ?thesis by auto
  qed
qed

lemma run_all_calls:
  "run_all ev ns (w, err) = (w', err', oc) \<Longrightarrow>
   \<exists>cs. calls w' = calls w @ cs \<and> prefix (map last cs) ns \<and> (oc = Finished \<longrightarrow> map last cs = ns)"
proof (induction ns arbitrary: w err)
  case Nil
  then show ?case by simp
next
  case (Cons n ns)
  show ?case
  proof (cases "map_of notebooks n")
    case None
    with Cons.prems show ?thesis by auto
  next
    case (Some expected)
    obtain w1 r where nr: "notebook_run ev n w = (w1, r)" by fastforce
    from notebook_run_calls [OF key_no_sep [OF Some] nr]
    consider e where "calls w1 = calls w" "r = Inl e"
      | tb where "calls w1 = calls w @ [nbconvert_args tb n]" by blast
    then show ?thesis
    proof cases
      case 1
      with Cons.prems Some nr show ?thesis by auto
    next
      case 2
      have l: "last (nbconvert_args tb n) = n" by (simp add: nbconvert_args_def)
      show ?thesis
      proof (cases r)
        case (Inl e)
        with Cons.prems Some nr have "w' = w1" "oc \<noteq> Finished" by auto
        with 2 l show ?thesis by (intro exI [of _ "[nbconvert_args tb n]"]) simp
      next
        case (Inr x)
        obtain nb errors where x: "x = (nb, errors)" by (cases x)
        show ?thesis
        proof (cases "check_errors n expected errors")
          case (Inl e)
          with Cons.prems Some nr Inr x have "w' = w1" "oc \<noteq> Finished" by auto
          with 2 l show ?thesis by (intro exI [of _ "[nbconvert_args tb n]"]) simp
        next
          case ce: (Inr res)
          obtain ok out where res: "res = (ok, out)" by (cases res)
          show ?thesis
          proof (cases ok)
            case False
            with Cons.prems Some nr Inr x ce res have "w' = w1" "oc \<noteq> Finished" by auto
            with 2 l show ?thesis by (intro exI [of _ "[nbconvert_args tb n]"]) simp
          next
            case True
            with Cons.prems Some nr Inr x ce res
            have "run_all ev ns (w1, err @ out) = (w', err', oc)" by simp
            from Cons.IH [OF this] obtain cs where
              cs: "calls w' = calls w1 @ cs" "prefix (map last cs) ns"
                "oc = Finished \<longrightarrow> map last cs = ns" by blast
            with 2 l show ?thesis
              by (intro exI [of _ "nbconvert_args tb n # cs"]) simp
          qed
        qed
      qed
    qed
  qed
qed

text \<open>
  Claim C7, amended. The claim as stated does not hold for every argument list: when the
  first argument is \<open>--help\<close> the script prints its usage and leaves with status 0
  without processing anything. What holds: without arguments the loop runs over the keys
  of the catalog, each once, in sorted order; with arguments of which the first is not
  \<open>--help\<close> it runs over exactly the arguments in the order given; and the notebooks
  handed to the execution service are a prefix of that sequence, in that order, and the
  whole sequence when the run reaches its end.
\<close>

theorem batch_order:
  "(length argv \<le> 1 \<longrightarrow>
      notebooks_to_run argv = Inr (sort (map fst notebooks))
      \<and> sorted (sort (map fst notebooks)) \<and> distinct (sort (map fst notebooks))
      \<and> set (sort (map fst notebooks)) = fst ` set notebooks)
   \<and> (args \<noteq> [] \<longrightarrow> hd args \<noteq> lit ''--help'' \<longrightarrow> notebooks_to_run (prog # args) = Inr args)
   \<and> (notebooks_to_run argv = Inr ns \<longrightarrow> runtest_main ev argv w = (w', printed, err, oc) \<longrightarrow>
        (\<exists>cs. calls w' = calls w @ cs \<and> prefix (map last cs) ns
              \<and> (oc = Finished \<longrightarrow> map last cs = ns)))"
proof (intro conjI impI)
  assume "length argv \<le> 1"
  then show "notebooks_to_run argv = Inr (sort (map fst notebooks))"
    by (simp add: notebooks_to_run_def)
next
  show "sorted (sort (map fst notebooks))" by simp
next
  show "distinct (sort (map fst notebooks))" using keys_distinct by simp
next
  show "set (sort (map fst notebooks)) = fst ` set notebooks" by simp
next
  assume "args \<noteq> []" "hd args \<noteq> lit ''--help''"
  then show "notebooks_to_run (prog # args) = Inr args"
    by (cases args) (simp_all add: notebooks_to_run_def)
next
  assume a: "notebooks_to_run argv = Inr ns" "runtest_main ev argv w = (w', printed, err, oc)"
  then have "run_all ev ns (w, []) = (w', err, oc)"
    by (simp add: runtest_main_def split: prod.splits)
  then show "\<exists>cs. calls w' = calls w @ cs \<and> prefix (map last cs) ns
              \<and> (oc = Finished \<longrightarrow> map last cs = ns)"
    by (rule run_all_calls)
qed

text \<open>
  The counterexample to claim C7 as stated: two arguments, the first being \<open>--help\<close>;
  nothing is processed and the world is unchanged.
\<close>

theorem batch_order_counterexample:
  "map_of notebooks (lit ''1_intro_to_scala.ipynb'') = Some []
   \<and> runtest_main quiet_service [lit ''runtest.py'', lit ''--help'', lit ''1_intro_to_scala.ipynb'']
        example_world
      = (example_world, usage (lit ''runtest.py''), [], SysExit 0)"
  by (simp add: intro_key runtest_main_def notebooks_to_run_def)


text \<open>Two notebooks, requested in an order that is not the sorted one.\<close>

theorem batch_order_witness:
  "length [lit ''runtest.py''] \<le> 1
   \<and> notebooks_to_run [lit ''runtest.py''] = Inr (sort (map fst notebooks))
   \<and> notebooks_to_run [lit ''runtest.py'', lit ''2.6_chiseltest.ipynb'', lit ''1_intro_to_scala.ipynb'']
       = Inr [lit ''2.6_chiseltest.ipynb'', lit ''1_intro_to_scala.ipynb'']
   \<and> (\<exists>w' err. runtest_main quiet_service
          [lit ''runtest.py'', lit ''2.6_chiseltest.ipynb'', lit ''1_intro_to_scala.ipynb'']
          example_world = (w', [], err, Finished)
        \<and> map last (calls w') = [lit ''2.6_chiseltest.ipynb'', lit ''1_intro_to_scala.ipynb''])"
proof -
  let ?args = "[lit ''2.6_chiseltest.ipynb'', lit ''1_intro_to_scala.ipynb'']"
  let ?argv = "lit ''runtest.py'' # ?args"
  have a: "?args \<noteq> []" "hd ?args \<noteq> lit ''--help''"
    by (simp_all add: lit_def)
  have fin: "snd (snd (snd (runtest_main quiet_service ?argv example_world))) = Finished"
    by (simp add: runtest_main_def notebooks_to_run_def notebooks_def eval_defs example_world_def
        quiet_service_def check_errors_def)
  have out: "fst (snd (runtest_main quiet_service ?argv example_world)) = []"
    by (simp add: runtest_main_def notebooks_to_run_def lit_def split: prod.splits)
  obtain w' err where r: "runtest_main quiet_service ?argv example_world = (w', [], err, Finished)"
    using fin out by (cases "runtest_main quiet_service ?argv example_world") auto
  have n: "notebooks_to_run ?argv = Inr ?args"
    using batch_order [of "[lit ''runtest.py'']" ?args "lit ''runtest.py''"] a by blast
  have "\<exists>cs. calls w' = calls example_world @ cs \<and> prefix (map last cs) ?args
              \<and> (Finished = Finished \<longrightarrow> map last cs = ?args)"
    using batch_order [of ?argv ?args "lit ''runtest.py''" ?args quiet_service example_world w' "[]" err Finished]
      n r by blast
  then have c: "map last (calls w') = ?args"
    by (auto simp: example_world_def)
  have z: "notebooks_to_run [lit ''runtest.py''] = Inr (sort (map fst notebooks))"
    using batch_order [of "[lit ''runtest.py'']" ?args "lit ''runtest.py''"] by simp
  from z n r c show ?thesis by auto
qed

text \<open>
  Claim C8. The claim does not hold for \<open>run_notebook.py\<close> as it is written: after the
  execution service has ended with exit code 0 the script prints a line that starts with
  the check mark U+2713, inside the \<open>try\<close> block that catches \<open>CalledProcessError\<close>
  only. On a standard output whose encoding does not have that character the \<open>print\<close>
  raises \<open>UnicodeEncodeError\<close>, which nothing catches, and the interpreter exits with
  status 1 although the notebook was executed: the service was called once, and the last
  line written is the bar that follows the call.
\<close>

theorem run_notebook_check_mark:
  "fst (nbconvert quiet_service (run_notebook_args (lit ''1_intro_to_scala.ipynb''))
         (cwd example_world) (files example_world)) = Inr 0
   \<and> run_notebook_main quiet_service latin1_stdout
         [lit ''run_notebook.py'', lit ''1_intro_to_scala.ipynb''] example_world
       = (example_world\<lparr>calls := [run_notebook_args (lit ''1_intro_to_scala.ipynb'')]\<rparr>,
          [lit ''Executing notebook: 1_intro_to_scala.ipynb'', replicate 60 61, replicate 60 61],
          Uncaught UnicodeEncodeError)
   \<and> exit_status (Uncaught UnicodeEncodeError) = 1"
  by (simp add: run_notebook_main_def check_call_def quiet_service_def example_world_def
      latin1_stdout_def exit_status_def lit_def Let_def list_all_iff)

text \<open>
  The rest of the claim holds. Without a notebook argument the exit status is 1 and the
  service is not started, whatever the encoding; with one, the service is started at
  most once, and the exit status is 1 whenever it is started and does not end with exit
  code 0. On a standard output that has every character the script behaves as the claim
  says in all three cases.
\<close>

lemma print_lines_all: "\<forall>c. enc c \<Longrightarrow> print_lines enc out ls = (out @ ls, True)"
  by (induction ls arbitrary: out) (simp_all add: list_all_iff)

lemma run_notebook_no_argument:
  assumes "length argv < 2"
  shows "\<exists>printed oc. run_notebook_main ev enc argv w = (w, printed, oc) \<and> exit_status oc = 1"
  using assms
  by (auto simp: run_notebook_main_def exit_status_def split: prod.splits bool.splits)

lemma run_notebook_service_failure:
  assumes "2 \<le> length argv"
    and "fst (nbconvert ev (run_notebook_args (argv ! 1)) (cwd w) (files w)) \<noteq> Inr 0"
  shows "exit_status (snd (snd (run_notebook_main ev enc argv w))) = 1"
proof -
  obtain r fs where nc: "nbconvert ev (run_notebook_args (argv ! 1)) (cwd w) (files w) = (r, fs)"
    by fastforce
  with assms(2) have r: "r \<noteq> Inr 0" by simp
  show ?thesis
  proof (cases r)
    case (Inl e)
    with assms(1) nc show ?thesis
      by (cases e)
        (auto simp: run_notebook_main_def check_call_def exit_status_def Let_def
          split: prod.splits bool.splits)
  next
    case (Inr rc)
    with r assms(1) nc show ?thesis
      by (auto simp: run_notebook_main_def check_call_def exit_status_def Let_def
          split: prod.splits bool.splits)
  qed
qed

lemma run_notebook_exit_codes_utf8:
  assumes "\<forall>c. enc c"
  shows "(length argv < 2 \<longrightarrow>
      run_notebook_main ev enc argv w
        = (w, [lit ''Usage: python run_notebook.py <notebook_name.ipynb>'',
               lit ''Example: python run_notebook.py 1_intro_to_scala.ipynb''], SysExit 1))
   \<and> (2 \<le> length argv \<longrightarrow>
        (\<exists>w' printed oc. run_notebook_main ev enc argv w = (w', printed, oc)
           \<and> calls w' = calls w @ [run_notebook_args (argv ! 1)]
           \<and> (case fst (nbconvert ev (run_notebook_args (argv ! 1)) (cwd w) (files w)) of
                 Inr rc \<Rightarrow> exit_status oc = (if rc = 0 then 0 else 1)
               | Inl e \<Rightarrow> exit_status oc = 1)))"
proof (intro conjI impI)
  assume "length argv < 2"
  then show "run_notebook_main ev enc argv w
        = (w, [lit ''Usage: python run_notebook.py <notebook_name.ipynb>'',
               lit ''Example: python run_notebook.py 1_intro_to_scala.ipynb''], SysExit 1)"
    by (simp add: run_notebook_main_def print_lines_all [OF assms] del: print_lines.simps)
next
  assume len: "2 \<le> length argv"
  obtain r fs where nc: "nbconvert ev (run_notebook_args (argv ! 1)) (cwd w) (files w) = (r, fs)"
    by fastforce
  show "\<exists>w' printed oc. run_notebook_main ev enc argv w = (w', printed, oc)
           \<and> calls w' = calls w @ [run_notebook_args (argv ! 1)]
           \<and> (case fst (nbconvert ev (run_notebook_args (argv ! 1)) (cwd w) (files w)) of
                 Inr rc \<Rightarrow> exit_status oc = (if rc = 0 then 0 else 1)
               | Inl e \<Rightarrow> exit_status oc = 1)"
  proof (cases r)
    case (Inl e)
    with len nc show ?thesis
      by (cases e)
        (simp_all add: run_notebook_main_def check_call_def exit_status_def Let_def
          print_lines_all [OF assms] del: print_lines.simps)
  next
    case (Inr rc)
    with len nc show ?thesis
      by (simp add: run_notebook_main_def check_call_def exit_status_def Let_def
          print_lines_all [OF assms] del: print_lines.simps)
  qed
qed

text \<open>The same run as above on a UTF-8 standard output ends with status 0.\<close>

lemma run_notebook_check_mark_utf8:
  "run_notebook_main quiet_service utf8_stdout
         [lit ''run_notebook.py'', lit ''1_intro_to_scala.ipynb''] example_world
       = (example_world\<lparr>calls := [run_notebook_args (lit ''1_intro_to_scala.ipynb'')]\<rparr>,
          [lit ''Executing notebook: 1_intro_to_scala.ipynb'', replicate 60 61, replicate 60 61,
           [10003] @ lit '' Successfully executed 1_intro_to_scala.ipynb''],
          Finished)
   \<and> exit_status Finished = 0"
  by (simp add: run_notebook_main_def check_call_def quiet_service_def example_world_def
      utf8_stdout_def exit_status_def lit_def Let_def list_all_iff)

text \<open>
  Claim C4. The claim does not hold for \<open>_notebook_run\<close> as it is written: the
  \<open>os.chdir(dirname)\<close> and the \<open>tempfile.mkstemp\<close> both happen before the \<open>try\<close>
  block, so an exception of \<open>mkstemp\<close> leaves the working directory changed. For a path
  with a relative directory this is what happens: after the \<open>chdir\<close>, \<open>dir=dirname\<close>
  names \<open>sub/sub\<close>, which does not exist.
\<close>

theorem notebook_run_relative_dir:
  "os_path_split (lit ''sub/nb.ipynb'') = (lit ''sub'', lit ''nb.ipynb'')
   \<and> cwd example_world = lit ''/w''
   \<and> notebook_run quiet_service (lit ''sub/nb.ipynb'') example_world
       = (example_world\<lparr>cwd := lit ''/w/sub''\<rparr>, Inl (FileNotFoundError (lit ''/w/sub/sub'')))"
  by (simp add: eval_defs example_world_def quiet_service_def)

text \<open>
  Once the temporary file has been allocated, the \<open>finally\<close> block does what the claim
  says, whatever the \<open>try\<close> block did.
\<close>

lemma absolute_join: "absolute a \<or> absolute b \<Longrightarrow> absolute (os_path_join a b)"
  by (auto simp: absolute_def os_path_join_def)

lemma join_absolute: "absolute b \<Longrightarrow> os_path_join a b = b"
  by (simp add: absolute_def os_path_join_def)

lemma mkstemp_Inr:
  assumes "mkstemp suf dir w = (w', Inr p)" and "absolute (cwd w)"
  shows "absolute p \<and> cwd w' = cwd w \<and> dirs w' = dirs w"
  using assms
  by (auto simp: mkstemp_def Let_def abspath_def absolute_join
      split: if_splits list.splits)

lemma try_body_frame:
  "try_body ev tp tb np w = (w', r) \<Longrightarrow> cwd w' = cwd w \<and> dirs w' = dirs w"
  by (auto simp: try_body_def check_call_def split: prod.splits sum.splits if_splits)

lemma finally_block_cleanup:
  assumes "finally_block tp od (w, r) = (w', r')" and "absolute tp" and "absolute od" and "od \<in> dirs w"
  shows "cwd w' = od \<and> files w' tp = None \<and> r' = r"
  using assms
  by (auto simp: finally_block_def unlink_quietly_def os_chdir_def abspath_def join_absolute Let_def
      split: sum.splits if_splits)

lemma notebook_run_cleanup:
  assumes run: "notebook_run ev path w = (w', r)"
    and wf: "absolute (cwd w)" "cwd w \<in> dirs w"
    and dirname: "dirname = fst (os_path_split path)"
    and chdir: "dirname \<noteq> [] \<longrightarrow> abspath w dirname \<in> dirs w"
    and alloc: "mkstemp (lit ''.ipynb'') (if dirname \<noteq> [] then Some dirname else None)
                  (if dirname \<noteq> [] then w\<lparr>cwd := abspath w dirname\<rparr> else w) = (w2, Inr temp_path)"
  shows "cwd w' = cwd w \<and> files w' temp_path = None"
proof -
  let ?w1 = "if dirname \<noteq> [] then w\<lparr>cwd := abspath w dirname\<rparr> else w"
  obtain basename where sp: "os_path_split path = (dirname, basename)"
    using dirname by (cases "os_path_split path") simp
  have abs1: "absolute (cwd ?w1)"
    using wf(1) by (simp add: abspath_def absolute_join)
  from mkstemp_Inr [OF alloc abs1]
  have tp: "absolute temp_path" and w2: "cwd w2 = cwd ?w1" "dirs w2 = dirs ?w1" by simp_all
  let ?np = "if dirname \<noteq> [] then basename else path"
  obtain w3 r3 where tb: "try_body ev temp_path (snd (os_path_split temp_path)) ?np w2 = (w3, r3)"
    by fastforce
  have fin: "finally_block temp_path (cwd w) (w3, r3) = (w', r)"
    using run sp chdir alloc tb
    by (auto simp: notebook_run_def os_chdir_def split: if_splits)
  have "cwd w \<in> dirs w3"
    using try_body_frame [OF tb] w2 wf(2) by (simp split: if_splits)
  from finally_block_cleanup [OF fin tp wf(1) this] show ?thesis by simp
qed

end
